theory Spec2Isabelle
  imports Main "HOL-Library.Sublist"
begin

section \<open>Values, keys and rows\<close>

text \<open>
  The embedding follows \<^verbatim>\<open>src/demo.tsx\<close>. A row of the table is a JavaScript object of
  the interface \<^verbatim>\<open>DataType\<close>. At run time a property can be absent (\<^verbatim>\<open>handleAdd\<close> builds an
  object with \<^verbatim>\<open>key\<close> and \<^verbatim>\<open>name\<close> only) and can hold a value of another type than the
  interface announces (the cell writes the text of an \<^verbatim>\<open>Input\<close> into the row), so every
  data property is an optional JavaScript value: \<open>None\<close> is an absent property.

  Numbers are modelled as integers: every number in the source is an integer literal,
  and the only arithmetic is \<^verbatim>\<open>count + 1\<close>, which is exact on doubles below \<open>2^53\<close>.
  \<^verbatim>\<open>React.Key\<close> is \<^verbatim>\<open>string | number\<close>; \<^verbatim>\<open>===\<close> on two keys is equality of \<open>rkey\<close>: a
  string never equals a number. \<^verbatim>\<open>NaN\<close>, the one number that is not \<^verbatim>\<open>===\<close> to itself, is not
  a key of the model.
\<close>

datatype jsval = JUndefined | JNull | JStr string | JNum int | JBool bool

datatype rkey = KStr string | KNum int

record row =
  key :: rkey
  name :: "jsval option"
  price :: "jsval option"
  quantity :: "jsval option"
  discount :: "jsval option"
  assignee :: "jsval option"

text \<open>The data properties a column's \<^verbatim>\<open>dataIndex\<close> names (\<^verbatim>\<open>defaultColumns\<close>).\<close>

datatype data_index = Name | Price | Discount | Quantity | Assignee

fun get_field :: "data_index \<Rightarrow> row \<Rightarrow> jsval option" where
  "get_field Name r = name r"
| "get_field Price r = price r"
| "get_field Discount r = discount r"
| "get_field Quantity r = quantity r"
| "get_field Assignee r = assignee r"

fun set_field :: "data_index \<Rightarrow> jsval \<Rightarrow> row \<Rightarrow> row" where
  "set_field Name v r = r\<lparr>name := Some v\<rparr>"
| "set_field Price v r = r\<lparr>price := Some v\<rparr>"
| "set_field Discount v r = r\<lparr>discount := Some v\<rparr>"
| "set_field Quantity v r = r\<lparr>quantity := Some v\<rparr>"
| "set_field Assignee v r = r\<lparr>assignee := Some v\<rparr>"

text \<open>
  Object spread. \<^verbatim>\<open>{...item, ...row}\<close> copies the properties of \<^verbatim>\<open>item\<close> and then those
  of \<^verbatim>\<open>row\<close>, a property of \<^verbatim>\<open>row\<close> overriding the one of \<^verbatim>\<open>item\<close>; spreading
  \<^verbatim>\<open>undefined\<close> copies nothing.
\<close>

definition override :: "'a option \<Rightarrow> 'a option \<Rightarrow> 'a option" where
  "override old new = (case new of None \<Rightarrow> old | Some v \<Rightarrow> Some v)"

fun spread :: "row option \<Rightarrow> row \<Rightarrow> row" where
  "spread None r = r"
| "spread (Some item) r =
     \<lparr> key = key r,
       name = override (name item) (name r),
       price = override (price item) (price r),
       quantity = override (quantity item) (quantity r),
       discount = override (discount item) (discount r),
       assignee = override (assignee item) (assignee r) \<rparr>"

text \<open>
  \<^verbatim>\<open>{...record, ...values}\<close> in the cell: \<^verbatim>\<open>values\<close> is the object the form hands back,
  a list of (field, value) properties written into a copy of the record in order.
\<close>

definition spread_values :: "row \<Rightarrow> (data_index \<times> jsval) list \<Rightarrow> row" where
  "spread_values r values = foldl (\<lambda>acc (f, v). set_field f v acc) r values"

section \<open>Array operations of JavaScript\<close>

text \<open>\<^verbatim>\<open>Array.prototype.findIndex\<close>: the index of the first element that satisfies the
  predicate, \<open>-1\<close> when there is none.\<close>

fun findIndex_from :: "('a \<Rightarrow> bool) \<Rightarrow> 'a list \<Rightarrow> int \<Rightarrow> int" where
  "findIndex_from p [] i = - 1"
| "findIndex_from p (x # xs) i = (if p x then i else findIndex_from p xs (i + 1))"

definition findIndex :: "('a \<Rightarrow> bool) \<Rightarrow> 'a list \<Rightarrow> int" where
  "findIndex p xs = findIndex_from p xs 0"

text \<open>\<^verbatim>\<open>xs[i]\<close>: \<^verbatim>\<open>undefined\<close> (here \<open>None\<close>) for an index that is not an index of the
  array, a negative one included.\<close>

definition js_index :: "'a list \<Rightarrow> int \<Rightarrow> 'a option" where
  "js_index xs i = (if 0 \<le> i \<and> i < int (length xs) then Some (xs ! nat i) else None)"

text \<open>
  \<^verbatim>\<open>xs.splice(start, deleteCount, ...items)\<close>, the array afterwards (ECMAScript
  \<^verbatim>\<open>Array.prototype.splice\<close>): a negative \<^verbatim>\<open>start\<close> counts from the end and is clamped at
  \<open>0\<close>, a \<^verbatim>\<open>start\<close> beyond the end is the end; at most the elements that remain from
  there are deleted; the items take their place.
\<close>

definition splice_js :: "'a list \<Rightarrow> int \<Rightarrow> int \<Rightarrow> 'a list \<Rightarrow> 'a list" where
  "splice_js xs start deleteCount items =
     (let len = int (length xs);
          actualStart = (if start < 0 then max (len + start) 0 else min start len);
          actualDeleteCount = min (max deleteCount 0) (len - actualStart)
      in take (nat actualStart) xs @ items @ drop (nat (actualStart + actualDeleteCount)) xs)"

section \<open>The Row Store: the state of \<^verbatim>\<open>App\<close> and its handlers\<close>

record app_state =
  dataSource :: "row list"
  count :: int

definition initial_state :: app_state where
  "initial_state =
     \<lparr> dataSource =
         [ \<lparr> key = KStr ''0'', name = Some (JStr ''Instrument 88B''),
             price = Some (JNum 100), quantity = Some (JNum 1),
             discount = Some (JNum 0), assignee = Some (JBool True) \<rparr>,
           \<lparr> key = KStr ''1'', name = Some (JStr ''Critical Stage Inspections''),
             price = Some (JNum 100), quantity = Some (JNum 3),
             discount = Some (JNum 0), assignee = Some (JBool False) \<rparr> ],
       count = 2 \<rparr>"

text \<open>\<^verbatim>\<open>handleDelete\<close> (remove): \<^verbatim>\<open>dataSource.filter((item) => item.key !== key)\<close>.\<close>

definition handleDelete :: "rkey \<Rightarrow> app_state \<Rightarrow> app_state" where
  "handleDelete k st =
     (let newData = filter (\<lambda>item. key item \<noteq> k) (dataSource st)
      in st\<lparr>dataSource := newData\<rparr>)"

text \<open>\<^verbatim>\<open>handleAdd\<close> (add): the new object has the properties \<^verbatim>\<open>key\<close> and \<^verbatim>\<open>name\<close> only;
  the handler takes no argument.\<close>

definition handleAdd :: "app_state \<Rightarrow> app_state" where
  "handleAdd st =
     (let newData = \<lparr> key = KNum (count st), name = Some (JStr ''Section 10.7 (2)''),
                      price = None, quantity = None, discount = None, assignee = None \<rparr>
      in st\<lparr>dataSource := dataSource st @ [newData], count := count st + 1\<rparr>)"

text \<open>\<^verbatim>\<open>handleSave\<close> (update): the index found is used as it is, also when it is \<open>-1\<close>.\<close>

definition handleSave :: "row \<Rightarrow> app_state \<Rightarrow> app_state" where
  "handleSave r st =
     (let newData = dataSource st;
          index = findIndex (\<lambda>item. key r = key item) newData;
          item = js_index newData index;
          newData' = splice_js newData index 1 [spread item r]
      in st\<lparr>dataSource := newData'\<rparr>)"

section \<open>The Row Store with arrays held by reference\<close>

text \<open>
  The same three handlers with the identity of arrays made explicit, for the question
  whether a handler writes into the array it was given. \<open>arrays\<close> holds every array
  allocated so far, an array's reference is its position there, and \<^verbatim>\<open>dataSource\<close> is a
  reference. \<^verbatim>\<open>filter\<close>, an array literal and \<^verbatim>\<open>[...dataSource]\<close> allocate a new array;
  \<^verbatim>\<open>splice\<close> writes into the array it is called on. Row objects are never written to
  (spread builds a new object), so rows stay values.
\<close>

record store_state =
  arrays :: "row list list"
  dataSource_ref :: nat
  count_ref :: int

definition alloc :: "row list \<Rightarrow> row list list \<Rightarrow> nat \<times> row list list" where
  "alloc xs h = (length h, h @ [xs])"

definition rows_of :: "store_state \<Rightarrow> row list" where
  "rows_of s = arrays s ! dataSource_ref s"

definition wf_store :: "store_state \<Rightarrow> bool" where
  "wf_store s = (dataSource_ref s < length (arrays s))"

definition initial_store :: store_state where
  "initial_store =
     \<lparr> arrays = [dataSource initial_state], dataSource_ref = 0, count_ref = count initial_state \<rparr>"

definition handleDelete_ref :: "rkey \<Rightarrow> store_state \<Rightarrow> store_state" where
  "handleDelete_ref k s =
     (let (newData, h) = alloc (filter (\<lambda>item. key item \<noteq> k) (rows_of s)) (arrays s)
      in s\<lparr>arrays := h, dataSource_ref := newData\<rparr>)"

definition handleAdd_ref :: "store_state \<Rightarrow> store_state" where
  "handleAdd_ref s =
     (let newData = \<lparr> key = KNum (count_ref s), name = Some (JStr ''Section 10.7 (2)''),
                      price = None, quantity = None, discount = None, assignee = None \<rparr>;
          (arr, h) = alloc (rows_of s @ [newData]) (arrays s)
      in s\<lparr>arrays := h, dataSource_ref := arr, count_ref := count_ref s + 1\<rparr>)"

definition handleSave_ref :: "row \<Rightarrow> store_state \<Rightarrow> store_state" where
  "handleSave_ref r s =
     (let (newData, h) = alloc (rows_of s) (arrays s);
          index = findIndex (\<lambda>item. key r = key item) (h ! newData);
          item = js_index (h ! newData) index;
          h' = h[newData := splice_js (h ! newData) index 1 [spread item r]]
      in s\<lparr>arrays := h', dataSource_ref := newData\<rparr>)"

section \<open>The editable cell\<close>

text \<open>
  \<^verbatim>\<open>EditableCell\<close> with its props (\<^verbatim>\<open>record\<close> is \<open>row_record\<close> here), its state
  \<^verbatim>\<open>editing\<close>, the form of its row (a value per field; \<open>None\<close> is \<^verbatim>\<open>undefined\<close>), the
  console, and the state of \<^verbatim>\<open>App\<close> that the \<^verbatim>\<open>handleSave\<close> prop works on. \<open>calls\<close> lists,
  in program order, the calls a handler of the cell makes.

  \<^verbatim>\<open>form.validateFields()\<close> is code of the component library: \<open>save\<close> takes it as a
  parameter, a function of the form that gives the rejection (\<open>Inl\<close>) or the values.

  A handler runs to its end before the next one starts: \<^verbatim>\<open>save\<close> is one commit, from the
  call of \<^verbatim>\<open>validateFields\<close> to the end of the \<^verbatim>\<open>try\<close> statement, and the \<^verbatim>\<open>record\<close>, the
  \<^verbatim>\<open>editing\<close> and the \<^verbatim>\<open>dataSource\<close> it reads are those of the current state. A state
  setter (\<^verbatim>\<open>setEditing\<close>, \<^verbatim>\<open>setDataSource\<close>) takes effect in the model when it is called;
  \<open>calls\<close> keeps the order of the calls.
\<close>

type_synonym errInfo = "string list"

type_synonym form_store = "data_index \<Rightarrow> jsval option"

datatype call =
    SetEditing bool
  | SetFieldsValue data_index "jsval option"
  | HandleSave row
  | ConsoleLog string errInfo

record cell_props =
  title :: string
  editable :: bool
  dataIndex :: data_index
  row_record :: row

record cell_world =
  app :: app_state
  editing :: bool
  form :: form_store
  console :: "(string \<times> errInfo) list"
  calls :: "call list"

definition toggleEdit :: "cell_props \<Rightarrow> cell_world \<Rightarrow> cell_world" where
  "toggleEdit props w =
     (let w1 = w\<lparr>editing := \<not> editing w, calls := calls w @ [SetEditing (\<not> editing w)]\<rparr>;
          v = get_field (dataIndex props) (row_record props)
      in w1\<lparr>form := (form w1)(dataIndex props := v),
             calls := calls w1 @ [SetFieldsValue (dataIndex props) v]\<rparr>)"

definition cell_handleSave :: "row \<Rightarrow> cell_world \<Rightarrow> cell_world" where
  "cell_handleSave r w = w\<lparr>app := handleSave r (app w), calls := calls w @ [HandleSave r]\<rparr>"

definition console_log :: "string \<Rightarrow> errInfo \<Rightarrow> cell_world \<Rightarrow> cell_world" where
  "console_log msg errInfo w =
     w\<lparr>console := console w @ [(msg, errInfo)], calls := calls w @ [ConsoleLog msg errInfo]\<rparr>"

text \<open>The body of the \<^verbatim>\<open>try\<close> block of \<^verbatim>\<open>save\<close>: a rejection of \<^verbatim>\<open>validateFields\<close> leaves
  it before anything else has run.\<close>

definition save_try ::
  "(form_store \<Rightarrow> errInfo + (data_index \<times> jsval) list) \<Rightarrow> cell_props \<Rightarrow> cell_world
     \<Rightarrow> errInfo + cell_world" where
  "save_try validateFields props w =
     (case validateFields (form w) of
        Inl errInfo \<Rightarrow> Inl errInfo
      | Inr values \<Rightarrow>
          Inr (cell_handleSave (spread_values (row_record props) values) (toggleEdit props w)))"

text \<open>\<^verbatim>\<open>save\<close>: \<open>Inl\<close> would be an error that leaves \<^verbatim>\<open>save\<close>; the \<^verbatim>\<open>catch\<close> clause logs
  the error and returns.\<close>

definition save ::
  "(form_store \<Rightarrow> errInfo + (data_index \<times> jsval) list) \<Rightarrow> cell_props \<Rightarrow> cell_world
     \<Rightarrow> errInfo + cell_world" where
  "save validateFields props w =
     (case save_try validateFields props w of
        Inl errInfo \<Rightarrow> Inr (console_log ''Save failed:'' errInfo w)
      | Inr w' \<Rightarrow> Inr w')"

text \<open>
  Modelled from the spec: the validation routine of the form library, which is not code
  of this repository, for the one rule the cell gives its field
  (\<^verbatim>\<open>required: true, message: `${title} is required.`\<close>): "a single required rule --
  value must be present". A value that is \<^verbatim>\<open>undefined\<close>, \<^verbatim>\<open>null\<close> or the empty string is
  not present; validation then rejects with the rule's message, and otherwise resolves
  with the field's value.
\<close>

definition is_empty_value :: "jsval option \<Rightarrow> bool" where
  "is_empty_value v = (v = None \<or> v = Some JUndefined \<or> v = Some JNull \<or> v = Some (JStr []))"

definition validate_required ::
  "string \<Rightarrow> data_index \<Rightarrow> form_store \<Rightarrow> errInfo + (data_index \<times> jsval) list" where
  "validate_required ttl f fm =
     (if is_empty_value (fm f) then Inl [ttl @ '' is required.'']
      else Inr [(f, the (fm f))])"

text \<open>\<open>called_before a b cs\<close>: in the list of calls \<open>cs\<close>, a call \<open>a\<close> is followed, later,
  by a call \<open>b\<close>.\<close>

fun called_before :: "'a \<Rightarrow> 'a \<Rightarrow> 'a list \<Rightarrow> bool" where
  "called_before a b [] = False"
| "called_before a b (x # xs) = ((x = a \<and> b \<in> set xs) \<or> called_before a b xs)"

text \<open>\<open>first_match k ds\<close>: the position of the first row of \<open>ds\<close> whose key is \<open>k\<close>
  (the length of \<open>ds\<close> when there is none).\<close>

definition first_match :: "rkey \<Rightarrow> row list \<Rightarrow> nat" where
  "first_match k ds = length (takeWhile (\<lambda>item. key item \<noteq> k) ds)"

section \<open>Inputs of the scenarios\<close>

text \<open>A record that has the key \<open>"0"\<close> and a quantity, \<open>5\<close>, and no other property.\<close>

definition quantity_five :: row where
  "quantity_five = \<lparr> key = KStr ''0'', name = None, price = None,
       quantity = Some (JNum 5), discount = None, assignee = None \<rparr>"

text \<open>A record for the row that add appends to the initial sequence: it has a price, a
  discount and an assignee, and neither name nor quantity.\<close>

definition partial_update_row :: row where
  "partial_update_row = \<lparr> key = KNum 2, name = None, price = Some (JNum 7),
       quantity = None, discount = Some (JNum 1), assignee = Some (JBool True) \<rparr>"

text \<open>A record with every property, for the row of key \<open>"1"\<close>.\<close>

definition full_update_row :: row where
  "full_update_row = \<lparr> key = KStr ''1'', name = Some (JStr ''Renamed''), price = Some (JNum 250),
       quantity = Some (JNum 4), discount = Some (JNum 10), assignee = Some (JBool True) \<rparr>"

text \<open>A record whose key is the number \<open>2\<close>.\<close>

definition numeric_key_row :: row where
  "numeric_key_row = \<lparr> key = KNum 2, name = Some (JStr ''Other''), price = Some (JNum 1),
        quantity = Some (JNum 1), discount = Some (JNum 0), assignee = Some (JBool False) \<rparr>"

text \<open>The initial sequence followed by a second record of key \<open>"1"\<close> and a record whose
  key is the number \<open>1\<close>.\<close>

definition duplicate_key_state :: app_state where
  "duplicate_key_state =
     \<lparr> dataSource = dataSource initial_state @
         [\<lparr> key = KStr ''1'', name = Some (JStr ''Copy''), price = None,
            quantity = None, discount = None, assignee = None \<rparr>,
          \<lparr> key = KNum 1, name = Some (JStr ''Number one''), price = None,
            quantity = None, discount = None, assignee = None \<rparr>],
       count = 2 \<rparr>"

text \<open>The cell of the column Quantity in the row of key \<open>"0"\<close>, and the state in which it
  is being edited, the form holding \<open>v\<close> for the field and nothing yet logged or called.\<close>

definition quantity_cell :: cell_props where
  "quantity_cell = \<lparr> title = ''Quantity'', editable = True, dataIndex = Quantity,
       row_record = dataSource initial_state ! 0 \<rparr>"

definition edit_world :: "jsval option \<Rightarrow> cell_world" where
  "edit_world v = \<lparr> app = initial_state, editing = True,
       form = (\<lambda>f. if f = Quantity then v else None), console = [], calls = [] \<rparr>"

text \<open>The row of key \<open>"0"\<close> with the text \<open>5\<close> as its quantity.\<close>

definition quantity_text_five :: row where
  "quantity_text_five = \<lparr> key = KStr ''0'', name = Some (JStr ''Instrument 88B''),
          price = Some (JNum 100), quantity = Some (JStr ''5''),
          discount = Some (JNum 0), assignee = Some (JBool True) \<rparr>"

section \<open>The two models of the Row Store\<close>

text \<open>The state of \<^verbatim>\<open>App\<close> that a state with references stands for.\<close>

definition abstract_state :: "store_state \<Rightarrow> app_state" where
  "abstract_state s = \<lparr> dataSource = rows_of s, count = count_ref s \<rparr>"

section \<open>Facts about the array operations\<close>

lemma findIndex_from_none: "\<forall>x \<in> set xs. \<not> p x \<Longrightarrow> findIndex_from p xs i = - 1"
  by (induction xs arbitrary: i) auto

lemma findIndex_from_first:
  "\<exists>x \<in> set xs. p x \<Longrightarrow> findIndex_from p xs i = i + int (length (takeWhile (\<lambda>x. \<not> p x) xs))"
proof (induction xs arbitrary: i)
  case Nil
  then show ?case by simp
next
  case (Cons a xs)
  show ?case
  proof (cases "p a")
    case True
    then show ?thesis by simp
  next
    case False
    with Cons.prems have "\<exists>x \<in> set xs. p x" by auto
    from Cons.IH [OF this, of "i + 1"] False show ?thesis by simp
  qed
qed

lemma findIndex_none: "\<forall>x \<in> set xs. \<not> p x \<Longrightarrow> findIndex p xs = - 1"
  by (simp add: findIndex_def findIndex_from_none)

lemma findIndex_first:
  "\<exists>x \<in> set xs. p x \<Longrightarrow> findIndex p xs = int (length (takeWhile (\<lambda>x. \<not> p x) xs))"
  by (simp add: findIndex_def findIndex_from_first)

lemma splice_replace: "i < length xs \<Longrightarrow> splice_js xs (int i) 1 [y] = xs[i := y]"
  by (simp add: splice_js_def Let_def min_def max_def upd_conv_take_nth_drop nat_add_distrib)

lemma splice_minus_one_nonempty: "xs \<noteq> [] \<Longrightarrow> splice_js xs (- 1) 1 [y] = butlast xs @ [y]"
  by (cases xs) (auto simp: splice_js_def Let_def min_def max_def butlast_conv_take nat_diff_distrib)

lemma splice_minus_one_empty: "splice_js [] (- 1) 1 [y] = [y]"
  by (simp add: splice_js_def)

lemma first_match_less: "k \<in> key ` set ds \<Longrightarrow> first_match k ds < length ds"
  unfolding first_match_def by (induction ds) auto

lemma first_match_key: "k \<in> key ` set ds \<Longrightarrow> key (ds ! first_match k ds) = k"
  unfolding first_match_def by (induction ds) auto

lemma first_match_keys: "first_match k ds = length (takeWhile (\<lambda>x. x \<noteq> k) (map key ds))"
  by (simp add: first_match_def takeWhile_map comp_def)

lemma filter_single_index:
  "length (filter P xs) = 1 \<Longrightarrow> i < length xs \<Longrightarrow> j < length xs \<Longrightarrow> P (xs ! i) \<Longrightarrow> P (xs ! j) \<Longrightarrow> i = j"
proof (induction xs arbitrary: i j)
  case Nil
  then show ?case by simp
next
  case (Cons a xs)
  show ?case
  proof (cases "P a")
    case True
    with Cons.prems(1) have "filter P xs = []" by simp
    then have none: "\<And>n. n < length xs \<Longrightarrow> \<not> P (xs ! n)"
      by (simp add: filter_empty_conv)
    have "i = 0"
    proof (cases i)
      case (Suc n)
      with Cons.prems(2,4) none [of n] show ?thesis by simp
    qed simp
    moreover have "j = 0"
    proof (cases j)
      case (Suc n)
      with Cons.prems(3,5) none [of n] show ?thesis by simp
    qed simp
    ultimately show ?thesis by simp
  next
    case False
    from False Cons.prems(4) obtain i' where i: "i = Suc i'" by (cases i) simp_all
    from False Cons.prems(5) obtain j' where j: "j = Suc j'" by (cases j) simp_all
    from False Cons.prems(1) have one: "length (filter P xs) = 1" by simp
    have "i' = j'"
      using Cons.IH [OF one, of i' j'] Cons.prems(2-5) i j by simp
    with i j show ?thesis by simp
  qed
qed

lemma filter_single_member:
  "length (filter P xs) = 1 \<Longrightarrow> \<exists>x \<in> set xs. P x"
  by (cases "filter P xs") (auto simp: filter_eq_Cons_iff)

lemma count_list_filter:
  "count_list (filter P xs) x = (if P x then count_list xs x else 0)"
  by (induction xs) auto

section \<open>Facts about spread\<close>

lemma override_twice: "override (override a b) b = override a b"
  by (simp add: override_def split: option.splits)

lemma override_self: "override a a = a"
  by (simp add: override_def split: option.splits)

lemma spread_self: "spread (Some r) (r::row) = r"
  by (simp add: override_self)

text \<open>The spread property by property: the value in the argument when the argument has
  the property, the value in the old row otherwise.\<close>

lemma spread_fields:
  "key (spread (Some item) r) = key r"
  "name (spread (Some item) r) = (case name r of None \<Rightarrow> name item | Some v \<Rightarrow> Some v)"
  "price (spread (Some item) r) = (case price r of None \<Rightarrow> price item | Some v \<Rightarrow> Some v)"
  "quantity (spread (Some item) r) = (case quantity r of None \<Rightarrow> quantity item | Some v \<Rightarrow> Some v)"
  "discount (spread (Some item) r) = (case discount r of None \<Rightarrow> discount item | Some v \<Rightarrow> Some v)"
  "assignee (spread (Some item) r) = (case assignee r of None \<Rightarrow> assignee item | Some v \<Rightarrow> Some v)"
  by (simp_all add: override_def)

section \<open>What \<^verbatim>\<open>handleSave\<close> computes\<close>

text \<open>When a row of the sequence has the key of the argument, the first such row is
  replaced, at its position, by the spread of it and the argument.\<close>

lemma handleSave_found:
  assumes "key r \<in> key ` set (dataSource st)"
  shows "dataSource (handleSave r st) =
         (dataSource st)[first_match (key r) (dataSource st) :=
            spread (Some (dataSource st ! first_match (key r) (dataSource st))) r]"
proof -
  let ?ds = "dataSource st"
  let ?i = "first_match (key r) ?ds"
  from assms have ex: "\<exists>x \<in> set ?ds. key r = key x" by force
  have fi: "findIndex (\<lambda>item. key r = key item) ?ds = int ?i"
    using findIndex_first [OF ex] by (simp add: first_match_def eq_commute)
  have lt: "?i < length ?ds" using assms by (rule first_match_less)
  have ix: "js_index ?ds (int ?i) = Some (?ds ! ?i)" using lt by (simp add: js_index_def)
  show ?thesis
    by (simp add: handleSave_def Let_def fi ix splice_replace [OF lt])
qed

text \<open>When no row has the key of the argument, \<^verbatim>\<open>findIndex\<close> gives \<open>-1\<close>, \<^verbatim>\<open>newData[-1]\<close>
  is \<^verbatim>\<open>undefined\<close>, and \<^verbatim>\<open>splice(-1, 1, ...)\<close> puts the argument in the place of the last
  row (after the rows, when there is no row).\<close>

lemma handleSave_missing:
  assumes "key r \<notin> key ` set (dataSource st)"
  shows "dataSource (handleSave r st) =
         (if dataSource st = [] then [r] else butlast (dataSource st) @ [r])"
proof -
  let ?ds = "dataSource st"
  from assms have "\<forall>x \<in> set ?ds. \<not> key r = key x" by force
  then have fi: "findIndex (\<lambda>item. key r = key item) ?ds = - 1" by (rule findIndex_none)
  have ix: "js_index ?ds (- 1) = None" by (simp add: js_index_def)
  show ?thesis
    by (simp add: handleSave_def Let_def fi ix splice_minus_one_nonempty splice_minus_one_empty)
qed

lemma handleSave_count: "count (handleSave r st) = count st"
  by (simp add: handleSave_def Let_def)

lemma handleSave_state: "handleSave r st = st\<lparr>dataSource := dataSource (handleSave r st)\<rparr>"
  by (simp add: handleSave_def Let_def)

lemma handleSave_keys_found:
  assumes "key r \<in> key ` set (dataSource st)"
  shows "map key (dataSource (handleSave r st)) = map key (dataSource st)"
proof -
  let ?ds = "dataSource st"
  let ?i = "first_match (key r) ?ds"
  have "map key (?ds[?i := spread (Some (?ds ! ?i)) r]) = (map key ?ds)[?i := key r]"
    by (simp add: map_update)
  also have "\<dots> = map key ?ds"
    using first_match_less [OF assms] first_match_key [OF assms]
    by (metis list_update_id nth_map)
  finally show ?thesis by (simp add: handleSave_found [OF assms])
qed

section \<open>Facts about the values of the form\<close>

lemma get_set_field:
  "get_field g (set_field f v r) = (if g = f then Some v else get_field g r)"
  by (cases f; cases g) simp_all

lemma key_set_field: "key (set_field f v r) = key r"
  by (cases f) simp_all

lemma key_spread_values: "key (spread_values r values) = key r"
  unfolding spread_values_def
  by (induction "values" arbitrary: r) (auto simp: key_set_field)

section \<open>The model with references computes what the model with values computes\<close>

lemma handleDelete_ref_rows:
  "rows_of (handleDelete_ref k s) = dataSource (handleDelete k (abstract_state s))"
  by (simp add: handleDelete_ref_def handleDelete_def alloc_def rows_of_def abstract_state_def)

lemma handleAdd_ref_rows:
  "rows_of (handleAdd_ref s) = dataSource (handleAdd (abstract_state s))"
  by (simp add: handleAdd_ref_def handleAdd_def alloc_def rows_of_def abstract_state_def)

lemma handleSave_ref_rows:
  "rows_of (handleSave_ref r s) = dataSource (handleSave r (abstract_state s))"
  by (simp add: handleSave_ref_def handleSave_def alloc_def rows_of_def abstract_state_def Let_def)

lemma handleDelete_ref_old:
  "a < length (arrays s) \<Longrightarrow> arrays (handleDelete_ref k s) ! a = arrays s ! a"
  by (simp add: handleDelete_ref_def alloc_def nth_append)

lemma handleAdd_ref_old:
  "a < length (arrays s) \<Longrightarrow> arrays (handleAdd_ref s) ! a = arrays s ! a"
  by (simp add: handleAdd_ref_def alloc_def nth_append)

lemma handleSave_ref_old:
  "a < length (arrays s) \<Longrightarrow> arrays (handleSave_ref r s) ! a = arrays s ! a"
  by (simp add: handleSave_ref_def alloc_def nth_append Let_def)

lemma handlers_ref_fresh:
  "dataSource_ref (handleDelete_ref k s) = length (arrays s)"
  "dataSource_ref (handleAdd_ref s) = length (arrays s)"
  "dataSource_ref (handleSave_ref r s) = length (arrays s)"
  "length (arrays (handleDelete_ref k s)) = Suc (length (arrays s))"
  "length (arrays (handleAdd_ref s)) = Suc (length (arrays s))"
  "length (arrays (handleSave_ref r s)) = Suc (length (arrays s))"
  by (simp_all add: handleDelete_ref_def handleAdd_ref_def handleSave_ref_def alloc_def Let_def)

text \<open>The reference \<^verbatim>\<open>dataSource\<close> always names an array that exists.\<close>

lemma wf_initial_store: "wf_store initial_store"
  by (simp add: wf_store_def initial_store_def)

lemma wf_store_handlers:
  "wf_store (handleDelete_ref k s)" "wf_store (handleAdd_ref s)" "wf_store (handleSave_ref r s)"
  by (simp_all add: wf_store_def handlers_ref_fresh)

section \<open>The claims about the Row Store\<close>

text \<open>
  C1. The claim: an update whose record has a key that no row of the sequence has is a
  no-op, the sequence returned equals the input. The code does not do that:
  on the initial sequence with a record of key \<open>"7"\<close>, \<^verbatim>\<open>handleSave\<close> puts the record in the
  place of the last row (\<^verbatim>\<open>findIndex\<close> gives \<open>-1\<close> and \<^verbatim>\<open>splice(-1, 1, ...)\<close> replaces the
  last element), so the row of key \<open>"1"\<close> is lost and the sequence is not the input.
\<close>

theorem handleSave_absent_key_overwrites_last:
  "dataSource (handleSave \<lparr> key = KStr ''7'', name = Some (JStr ''Other''), price = Some (JNum 1),
        quantity = Some (JNum 1), discount = Some (JNum 0), assignee = Some (JBool False) \<rparr>
      initial_state)
   = [ dataSource initial_state ! 0,
       \<lparr> key = KStr ''7'', name = Some (JStr ''Other''), price = Some (JNum 1),
         quantity = Some (JNum 1), discount = Some (JNum 0), assignee = Some (JBool False) \<rparr> ]
   \<and> dataSource (handleSave \<lparr> key = KStr ''7'', name = Some (JStr ''Other''), price = Some (JNum 1),
        quantity = Some (JNum 1), discount = Some (JNum 0), assignee = Some (JBool False) \<rparr>
      initial_state) \<noteq> dataSource initial_state"
  by (simp add: handleSave_def initial_state_def findIndex_def js_index_def splice_js_def)

text \<open>
  C2, as the claim states it: from the initial state, the record that add appends has
  the key \<open>"2"\<close>. It fails: the key is \<^verbatim>\<open>count\<close>, the number \<open>2\<close>, and a number is not
  \<^verbatim>\<open>===\<close> to a string.
\<close>

theorem handleAdd_initial_key_not_string:
  "key (last (dataSource (handleAdd initial_state))) \<noteq> KStr ''2''"
  by (simp add: handleAdd_def initial_state_def)

text \<open>
  C2, amended: the initial sequence has two records, of keys \<open>"0"\<close> and \<open>"1"\<close>, and the
  counter is \<open>2\<close>; add appends, at the end, a record whose key is the number \<open>2\<close> (and
  whose name is \<open>Section 10.7 (2)\<close>), the length of the sequence becomes \<open>3\<close> and the
  counter becomes \<open>3\<close>.
\<close>

theorem handleAdd_initial:
  "map key (dataSource initial_state) = [KStr ''0'', KStr ''1'']
   \<and> count initial_state = 2
   \<and> dataSource (handleAdd initial_state) =
       dataSource initial_state @
         [\<lparr> key = KNum 2, name = Some (JStr ''Section 10.7 (2)''),
            price = None, quantity = None, discount = None, assignee = None \<rparr>]
   \<and> length (dataSource (handleAdd initial_state)) = 3
   \<and> count (handleAdd initial_state) = 3"
  by (simp add: handleAdd_def initial_state_def)

text \<open>
  C3. The claim: the record that add appends has all the fields of a Record (key, name,
  price, quantity, discount, assignee). The code declares the new object a \<^verbatim>\<open>DataType\<close>,
  whose six properties are all required, and gives it two: in every state the appended
  record has the counter as its key and a fixed name, and no price, quantity, discount
  or assignee.
\<close>

theorem handleAdd_row_lacks_fields:
  "dataSource (handleAdd st) = dataSource st @
       [\<lparr> key = KNum (count st), name = Some (JStr ''Section 10.7 (2)''),
          price = None, quantity = None, discount = None, assignee = None \<rparr>]
   \<and> price (last (dataSource (handleAdd st))) = None
   \<and> quantity (last (dataSource (handleAdd st))) = None
   \<and> discount (last (dataSource (handleAdd st))) = None
   \<and> assignee (last (dataSource (handleAdd st))) = None"
  by (simp add: handleAdd_def)

text \<open>
  C8. Applying update twice with the same record gives the state that applying it once
  gives. It holds for every sequence and every record, fully specified or not (a record
  with absent properties included), and whether or not a row has the record's key.
\<close>

theorem handleSave_idempotent: "handleSave r (handleSave r st) = handleSave r st"
proof -
  let ?ds = "dataSource st"
  let ?st' = "handleSave r st"
  have "dataSource (handleSave r ?st') = dataSource ?st'"
  proof (cases "key r \<in> key ` set ?ds")
    case True
    let ?i = "first_match (key r) ?ds"
    have keys: "map key (dataSource ?st') = map key ?ds"
      using True by (rule handleSave_keys_found)
    then have in': "key r \<in> key ` set (dataSource ?st')"
      using True by (metis list.set_map)
    have fm: "first_match (key r) (dataSource ?st') = ?i"
      using keys by (simp add: first_match_keys)
    have lt: "?i < length ?ds" using True by (rule first_match_less)
    have ds': "dataSource ?st' = ?ds[?i := spread (Some (?ds ! ?i)) r]"
      using True by (rule handleSave_found)
    show ?thesis
      by (simp add: handleSave_found [OF in'] fm) (simp add: ds' lt override_twice)
  next
    case False
    define xs where "xs = (if ?ds = [] then [] else butlast ?ds)"
    have ds': "dataSource ?st' = xs @ [r]"
      using handleSave_missing [OF False] by (simp add: xs_def)
    have in': "key r \<in> key ` set (dataSource ?st')" by (simp add: ds')
    have nb: "\<And>x. x \<in> set xs \<Longrightarrow> key x \<noteq> key r"
      using False by (metis xs_def empty_iff empty_set image_eqI in_set_butlastD)
    have "takeWhile (\<lambda>item. key item \<noteq> key r) (xs @ [r]) = xs"
      using nb by (simp add: takeWhile_append2)
    then have fm: "first_match (key r) (xs @ [r]) = length xs"
      by (simp add: first_match_def)
    have "dataSource (handleSave r ?st') =
          (xs @ [r])[length xs := spread (Some ((xs @ [r]) ! length xs)) r]"
      using handleSave_found [OF in'] by (simp only: ds' fm)
    also have "\<dots> = xs @ [r]"
      by (simp add: spread_self del: spread.simps)
    finally show ?thesis by (simp only: ds')
  qed
  then show ?thesis
    using handleSave_state [of r "handleSave r st"] by simp
qed

text \<open>
  C7. When exactly one row of the sequence has the key of the record, update returns a
  sequence of the same length in which that row is replaced, at its position, by the
  merge of the old row and the record: the new row has the key of the record and, for
  each of name, price, quantity, discount and assignee, the value in the record when
  the record has the property and the value in the old row when it has not (this is
  what the spread \<^verbatim>\<open>{...item, ...row}\<close> gives). Every row with another key is as it was.
  The counter is not touched.
\<close>

theorem handleSave_replaces_matching_row:
  assumes "length (filter (\<lambda>item. key item = key r) (dataSource st)) = 1"
  shows "length (dataSource (handleSave r st)) = length (dataSource st)
       \<and> (\<forall>i < length (dataSource st).
            dataSource (handleSave r st) ! i =
              (if key (dataSource st ! i) = key r
               then spread (Some (dataSource st ! i)) r else dataSource st ! i))
       \<and> (\<forall>i < length (dataSource st). key (dataSource st ! i) = key r \<longrightarrow>
              key (dataSource (handleSave r st) ! i) = key r
            \<and> name (dataSource (handleSave r st) ! i) =
                (case name r of None \<Rightarrow> name (dataSource st ! i) | Some v \<Rightarrow> Some v)
            \<and> price (dataSource (handleSave r st) ! i) =
                (case price r of None \<Rightarrow> price (dataSource st ! i) | Some v \<Rightarrow> Some v)
            \<and> quantity (dataSource (handleSave r st) ! i) =
                (case quantity r of None \<Rightarrow> quantity (dataSource st ! i) | Some v \<Rightarrow> Some v)
            \<and> discount (dataSource (handleSave r st) ! i) =
                (case discount r of None \<Rightarrow> discount (dataSource st ! i) | Some v \<Rightarrow> Some v)
            \<and> assignee (dataSource (handleSave r st) ! i) =
                (case assignee r of None \<Rightarrow> assignee (dataSource st ! i) | Some v \<Rightarrow> Some v))
       \<and> (\<forall>i < length (dataSource st). key (dataSource st ! i) \<noteq> key r \<longrightarrow>
              dataSource (handleSave r st) ! i = dataSource st ! i)
       \<and> count (handleSave r st) = count st"
proof -
  let ?ds = "dataSource st"
  let ?i = "first_match (key r) ?ds"
  from filter_single_member [OF assms] have inn: "key r \<in> key ` set ?ds" by (metis imageI)
  have ds': "dataSource (handleSave r st) = ?ds[?i := spread (Some (?ds ! ?i)) r]"
    using inn by (rule handleSave_found)
  have lt: "?i < length ?ds" using inn by (rule first_match_less)
  have ki: "key (?ds ! ?i) = key r" using inn by (rule first_match_key)
  have only: "j = ?i" if "j < length ?ds" "key (?ds ! j) = key r" for j
    using filter_single_index [OF assms that(1) lt] that(2) ki by simp
  have at: "dataSource (handleSave r st) ! j =
          (if key (?ds ! j) = key r then spread (Some (?ds ! j)) r else ?ds ! j)"
    if "j < length ?ds" for j
  proof (cases "j = ?i")
    case True
    then show ?thesis using lt ki by (simp add: ds' del: spread.simps)
  next
    case False
    with only [OF that] have "key (?ds ! j) \<noteq> key r" by blast
    with False show ?thesis by (simp add: ds')
  qed
  have len: "length (dataSource (handleSave r st)) = length ?ds" by (simp add: ds')
  have first: "\<forall>i < length ?ds.
      dataSource (handleSave r st) ! i =
        (if key (?ds ! i) = key r then spread (Some (?ds ! i)) r else ?ds ! i)"
    using at by blast
  have fields: "\<forall>i < length ?ds. key (?ds ! i) = key r \<longrightarrow>
              key (dataSource (handleSave r st) ! i) = key r
            \<and> name (dataSource (handleSave r st) ! i) =
                (case name r of None \<Rightarrow> name (?ds ! i) | Some v \<Rightarrow> Some v)
            \<and> price (dataSource (handleSave r st) ! i) =
                (case price r of None \<Rightarrow> price (?ds ! i) | Some v \<Rightarrow> Some v)
            \<and> quantity (dataSource (handleSave r st) ! i) =
                (case quantity r of None \<Rightarrow> quantity (?ds ! i) | Some v \<Rightarrow> Some v)
            \<and> discount (dataSource (handleSave r st) ! i) =
                (case discount r of None \<Rightarrow> discount (?ds ! i) | Some v \<Rightarrow> Some v)
            \<and> assignee (dataSource (handleSave r st) ! i) =
                (case assignee r of None \<Rightarrow> assignee (?ds ! i) | Some v \<Rightarrow> Some v)"
  proof (intro allI impI)
    fix i assume "i < length ?ds" and k: "key (?ds ! i) = key r"
    from at [OF this(1)] k
    have "dataSource (handleSave r st) ! i = spread (Some (?ds ! i)) r" by simp
    then show "key (dataSource (handleSave r st) ! i) = key r
            \<and> name (dataSource (handleSave r st) ! i) =
                (case name r of None \<Rightarrow> name (?ds ! i) | Some v \<Rightarrow> Some v)
            \<and> price (dataSource (handleSave r st) ! i) =
                (case price r of None \<Rightarrow> price (?ds ! i) | Some v \<Rightarrow> Some v)
            \<and> quantity (dataSource (handleSave r st) ! i) =
                (case quantity r of None \<Rightarrow> quantity (?ds ! i) | Some v \<Rightarrow> Some v)
            \<and> discount (dataSource (handleSave r st) ! i) =
                (case discount r of None \<Rightarrow> discount (?ds ! i) | Some v \<Rightarrow> Some v)
            \<and> assignee (dataSource (handleSave r st) ! i) =
                (case assignee r of None \<Rightarrow> assignee (?ds ! i) | Some v \<Rightarrow> Some v)"
      by (simp only: spread_fields)
  qed
  have others: "\<forall>i < length ?ds. key (?ds ! i) \<noteq> key r \<longrightarrow>
              dataSource (handleSave r st) ! i = ?ds ! i"
    using at by simp
  from len first fields others handleSave_count [of r st] show ?thesis by blast
qed

text \<open>The scenario of the claim: a record with key \<open>"0"\<close> and quantity \<open>5\<close> on the
  initial sequence. The row of key \<open>"0"\<close> gets the quantity and keeps its other
  properties; the row of key \<open>"1"\<close> is untouched. A record with every property takes the
  place of the row of key \<open>"1"\<close> as it is. On the row that add appended, which has a key
  and a name only, a record with a price, a discount and an assignee gives a row with
  the old name, the three new values and still no quantity.\<close>

theorem handleSave_replaces_matching_row_witness:
  "length (filter (\<lambda>item. key item = key quantity_five) (dataSource initial_state)) = 1
   \<and> length (dataSource (handleSave quantity_five initial_state)) = 2
   \<and> dataSource (handleSave quantity_five initial_state) ! 0 =
        \<lparr> key = KStr ''0'', name = Some (JStr ''Instrument 88B''),
          price = Some (JNum 100), quantity = Some (JNum 5),
          discount = Some (JNum 0), assignee = Some (JBool True) \<rparr>
   \<and> dataSource (handleSave quantity_five initial_state) ! 1 = dataSource initial_state ! 1
   \<and> count (handleSave quantity_five initial_state) = 2
   \<and> length (filter (\<lambda>item. key item = key full_update_row) (dataSource initial_state)) = 1
   \<and> dataSource (handleSave full_update_row initial_state) ! 0 = dataSource initial_state ! 0
   \<and> dataSource (handleSave full_update_row initial_state) ! 1 = full_update_row
   \<and> length (filter (\<lambda>item. key item = key partial_update_row)
         (dataSource (handleAdd initial_state))) = 1
   \<and> length (dataSource (handleSave partial_update_row (handleAdd initial_state))) = 3
   \<and> dataSource (handleSave partial_update_row (handleAdd initial_state)) ! 2 =
         \<lparr> key = KNum 2, name = Some (JStr ''Section 10.7 (2)''),
           price = Some (JNum 7), quantity = None,
           discount = Some (JNum 1), assignee = Some (JBool True) \<rparr>"
proof -
  let ?a = "handleSave quantity_five initial_state"
  let ?b = "handleSave full_update_row initial_state"
  let ?st = "handleAdd initial_state"
  let ?c = "handleSave partial_update_row ?st"
  have h: "length (filter (\<lambda>item. key item = key quantity_five) (dataSource initial_state)) = 1"
    by (simp add: quantity_five_def initial_state_def)
  have hb: "length (filter (\<lambda>item. key item = key full_update_row) (dataSource initial_state)) = 1"
    by (simp add: full_update_row_def initial_state_def)
  have hc: "length (filter (\<lambda>item. key item = key partial_update_row) (dataSource ?st)) = 1"
    by (simp add: partial_update_row_def handleAdd_def initial_state_def)
  have len: "length (dataSource initial_state) = 2" and c: "count initial_state = 2"
    by (simp_all add: initial_state_def)
  have len3: "length (dataSource ?st) = 3"
    by (simp add: handleAdd_def initial_state_def)
  note A = handleSave_replaces_matching_row [OF h]
  note B = handleSave_replaces_matching_row [OF hb]
  note C = handleSave_replaces_matching_row [OF hc]
  note A_fields = A [THEN conjunct2, THEN conjunct2, THEN conjunct1, rule_format, of 0]
  note A_others = A [THEN conjunct2, THEN conjunct2, THEN conjunct2, THEN conjunct1, rule_format, of 1]
  note B_fields = B [THEN conjunct2, THEN conjunct2, THEN conjunct1, rule_format, of 1]
  note B_others = B [THEN conjunct2, THEN conjunct2, THEN conjunct2, THEN conjunct1, rule_format, of 0]
  note C_fields = C [THEN conjunct2, THEN conjunct2, THEN conjunct1, rule_format, of 2]
  have a_len: "length (dataSource ?a) = 2"
    using A [THEN conjunct1] len by simp
  have a_count: "count ?a = 2"
    using A [THEN conjunct2, THEN conjunct2, THEN conjunct2, THEN conjunct2] c by simp
  have c_len: "length (dataSource ?c) = 3"
    using C [THEN conjunct1] len3 by simp
  have "0 < length (dataSource initial_state)"
    and "key (dataSource initial_state ! 0) = key quantity_five"
    by (simp_all add: initial_state_def quantity_five_def)
  from A_fields [OF this] have a0: "dataSource ?a ! 0 =
        \<lparr> key = KStr ''0'', name = Some (JStr ''Instrument 88B''),
          price = Some (JNum 100), quantity = Some (JNum 5),
          discount = Some (JNum 0), assignee = Some (JBool True) \<rparr>"
    by (intro row.equality) (simp_all add: quantity_five_def initial_state_def)
  have "1 < length (dataSource initial_state)"
    and "key (dataSource initial_state ! 1) \<noteq> key quantity_five"
    by (simp_all add: initial_state_def quantity_five_def)
  from A_others [OF this] have a1: "dataSource ?a ! 1 = dataSource initial_state ! 1" .
  have "1 < length (dataSource initial_state)"
    and "key (dataSource initial_state ! 1) = key full_update_row"
    by (simp_all add: initial_state_def full_update_row_def)
  from B_fields [OF this] have b1: "dataSource ?b ! 1 = full_update_row"
    by (intro row.equality) (simp_all add: full_update_row_def initial_state_def)
  have "0 < length (dataSource initial_state)"
    and "key (dataSource initial_state ! 0) \<noteq> key full_update_row"
    by (simp_all add: initial_state_def full_update_row_def)
  from B_others [OF this] have b0: "dataSource ?b ! 0 = dataSource initial_state ! 0" .
  have "2 < length (dataSource ?st)"
    and "key (dataSource ?st ! 2) = key partial_update_row"
    by (simp_all add: handleAdd_def initial_state_def partial_update_row_def)
  from C_fields [OF this] have c2: "dataSource ?c ! 2 =
         \<lparr> key = KNum 2, name = Some (JStr ''Section 10.7 (2)''),
           price = Some (JNum 7), quantity = None,
           discount = Some (JNum 1), assignee = Some (JBool True) \<rparr>"
    by (intro row.equality) (simp_all add: partial_update_row_def handleAdd_def initial_state_def)
  from h hb hc a_len a_count c_len a0 a1 b0 b1 c2 show ?thesis by blast
qed

text \<open>
  C10. remove deletes every row whose key is strictly equal to the given key and no
  other row: each row with another key occurs in the result as often as in the input,
  and the result is a subsequence of the input (the order of the rows kept is
  preserved). When no row has the key, the result is the input; removing twice with
  the same key gives what removing once gives. The counter is not touched.
\<close>

theorem handleDelete_removes_matching_rows:
  "(\<forall>r. count_list (dataSource (handleDelete k st)) r =
          (if key r = k then 0 else count_list (dataSource st) r))
   \<and> subseq (dataSource (handleDelete k st)) (dataSource st)
   \<and> (k \<notin> key ` set (dataSource st) \<longrightarrow> dataSource (handleDelete k st) = dataSource st)
   \<and> handleDelete k (handleDelete k st) = handleDelete k st
   \<and> count (handleDelete k st) = count st"
proof -
  have "k \<notin> key ` set (dataSource st) \<Longrightarrow> filter (\<lambda>item. key item \<noteq> k) (dataSource st) = dataSource st"
    by (rule filter_True) auto
  then show ?thesis
    by (simp add: handleDelete_def count_list_filter)
qed

text \<open>Removing the key \<open>"1"\<close> deletes both rows that have it and keeps the row whose
  key is the number \<open>1\<close>; removing the key \<open>"2"\<close> after an add, whose row has the
  number \<open>2\<close> as key, changes nothing.\<close>

theorem handleDelete_removes_matching_rows_witness:
  "dataSource (handleDelete (KStr ''1'') duplicate_key_state) =
     [dataSource initial_state ! 0,
      \<lparr> key = KNum 1, name = Some (JStr ''Number one''), price = None,
        quantity = None, discount = None, assignee = None \<rparr>]
   \<and> subseq (dataSource (handleDelete (KStr ''1'') duplicate_key_state)) (dataSource duplicate_key_state)
   \<and> KStr ''2'' \<notin> key ` set (dataSource (handleAdd initial_state))
   \<and> dataSource (handleDelete (KStr ''2'') (handleAdd initial_state)) = dataSource (handleAdd initial_state)
   \<and> handleDelete (KStr ''1'') (handleDelete (KStr ''1'') duplicate_key_state)
       = handleDelete (KStr ''1'') duplicate_key_state"
proof -
  have h: "KStr ''2'' \<notin> key ` set (dataSource (handleAdd initial_state))"
    by (simp add: handleAdd_def initial_state_def)
  have e: "dataSource (handleDelete (KStr ''1'') duplicate_key_state) =
     [dataSource initial_state ! 0,
      \<lparr> key = KNum 1, name = Some (JStr ''Number one''), price = None,
        quantity = None, discount = None, assignee = None \<rparr>]"
    by (simp add: handleDelete_def duplicate_key_state_def initial_state_def)
  from handleDelete_removes_matching_rows [of "KStr ''1''" duplicate_key_state]
       handleDelete_removes_matching_rows [of "KStr ''2''" "handleAdd initial_state"] h e
  show ?thesis by blast
qed

text \<open>
  C5, as the claim states it: on every sequence with pairwise distinct keys, add gives
  a sequence with pairwise distinct keys. It fails: the key of the new row is the
  counter, which is not an argument and not part of the sequence. On the sequence of
  the one row with the number \<open>2\<close> as key, with the counter at its initial value
  \<open>2\<close>, add repeats the key. Such a state is reached from the initial one by an update
  with that row (no row has its key, so it takes the place of the last row) and an add.
\<close>

theorem handleAdd_can_repeat_a_key:
  "distinct (map key [numeric_key_row])
   \<and> \<not> distinct (map key (dataSource (handleAdd \<lparr> dataSource = [numeric_key_row], count = 2 \<rparr>)))
   \<and> distinct (map key (dataSource (handleSave numeric_key_row initial_state)))
   \<and> \<not> distinct (map key (dataSource (handleAdd (handleSave numeric_key_row initial_state))))"
  by (simp add: handleAdd_def handleSave_def numeric_key_row_def initial_state_def
        findIndex_def js_index_def splice_js_def)

text \<open>
  C5, amended: on every sequence with pairwise distinct keys, remove and update (with
  any argument) give a sequence with pairwise distinct keys, and so does add provided
  that no row of the sequence has the current value of the counter as its key.
\<close>

theorem handlers_keep_keys_distinct:
  assumes "distinct (map key (dataSource st))"
  shows "distinct (map key (dataSource (handleDelete k st)))
       \<and> distinct (map key (dataSource (handleSave r st)))
       \<and> (KNum (count st) \<notin> key ` set (dataSource st) \<longrightarrow>
            distinct (map key (dataSource (handleAdd st))))"
proof -
  let ?ds = "dataSource st"
  have del: "distinct (map key (dataSource (handleDelete k st)))"
    using assms by (simp add: handleDelete_def distinct_map_filter)
  have sav: "distinct (map key (dataSource (handleSave r st)))"
  proof (cases "key r \<in> key ` set ?ds")
    case True
    then show ?thesis using assms by (simp add: handleSave_keys_found)
  next
    case False
    have "distinct (map key (butlast ?ds))"
      using assms by (simp add: map_butlast distinct_butlast)
    moreover have "key r \<notin> key ` set (butlast ?ds)"
      using False by (metis image_iff in_set_butlastD)
    ultimately show ?thesis
      by (simp add: handleSave_missing [OF False])
  qed
  have add: "distinct (map key (dataSource (handleAdd st)))"
    if "KNum (count st) \<notin> key ` set ?ds"
    using assms that by (simp add: handleAdd_def)
  from del sav add show ?thesis by blast
qed

theorem handlers_keep_keys_distinct_witness:
  "distinct (map key (dataSource initial_state))
   \<and> KNum (count initial_state) \<notin> key ` set (dataSource initial_state)
   \<and> distinct (map key (dataSource (handleDelete (KStr ''0'') initial_state)))
   \<and> distinct (map key (dataSource (handleSave numeric_key_row initial_state)))
   \<and> distinct (map key (dataSource (handleAdd initial_state)))"
proof -
  have h: "distinct (map key (dataSource initial_state))"
    by (simp add: initial_state_def)
  have f: "KNum (count initial_state) \<notin> key ` set (dataSource initial_state)"
    by (simp add: initial_state_def)
  from handlers_keep_keys_distinct [OF h, of "KStr ''0''" numeric_key_row] h f
  show ?thesis by blast
qed

section \<open>The claims about the editable cell\<close>

text \<open>
  C4. When \<^verbatim>\<open>validateFields\<close> rejects (for the required rule: the value of the field is
  empty), \<^verbatim>\<open>save\<close> returns normally, the error going no further than the \<^verbatim>\<open>catch\<close>
  clause, which logs it; \<^verbatim>\<open>editing\<close> is what it was (a cell in EDIT stays in EDIT), the
  state of the Row Store and the form are unchanged, and the only call made is the
  \<^verbatim>\<open>console.log\<close>: \<^verbatim>\<open>handleSave\<close> is not called.
\<close>

theorem save_rejected:
  assumes "validateFields (form w) = Inl errInfo"
  shows "\<exists>w'. save validateFields props w = Inr w'
           \<and> editing w' = editing w
           \<and> app w' = app w
           \<and> form w' = form w
           \<and> console w' = console w @ [(''Save failed:'', errInfo)]
           \<and> calls w' = calls w @ [ConsoleLog ''Save failed:'' errInfo]"
  using assms by (simp add: save_def save_try_def console_log_def)

text \<open>The cell of Quantity in EDIT, with the empty text in the field: the required rule
  rejects, the cell is still in EDIT, the rows are the initial ones.\<close>

theorem save_rejected_witness:
  "validate_required ''Quantity'' Quantity (form (edit_world (Some (JStr '''')))) =
       Inl [''Quantity is required.'']
   \<and> (\<exists>w'. save (validate_required ''Quantity'' Quantity) quantity_cell
                (edit_world (Some (JStr ''''))) = Inr w'
           \<and> editing w'
           \<and> app w' = initial_state
           \<and> console w' = [(''Save failed:'', [''Quantity is required.''])]
           \<and> calls w' = [ConsoleLog ''Save failed:'' [''Quantity is required.'']])"
proof -
  have h: "validate_required ''Quantity'' Quantity (form (edit_world (Some (JStr '''')))) =
       Inl [''Quantity is required.'']"
    by (simp add: validate_required_def is_empty_value_def edit_world_def)
  from save_rejected [where validateFields = "validate_required ''Quantity'' Quantity"
         and w = "edit_world (Some (JStr []))" and props = quantity_cell, OF h]
  obtain w' where
    "save (validate_required ''Quantity'' Quantity) quantity_cell (edit_world (Some (JStr []))) = Inr w'"
    "editing w' = editing (edit_world (Some (JStr [])))"
    "app w' = app (edit_world (Some (JStr [])))"
    "console w' = console (edit_world (Some (JStr []))) @ [(''Save failed:'', [''Quantity is required.''])]"
    "calls w' = calls (edit_world (Some (JStr []))) @ [ConsoleLog ''Save failed:'' [''Quantity is required.'']]"
    by blast
  with h show ?thesis by (simp add: edit_world_def)
qed

text \<open>
  C6, as the claim states it: on a commit that passes validation, the Row Store update
  is invoked before the transition to VIEW. It fails: \<^verbatim>\<open>save\<close> calls \<^verbatim>\<open>toggleEdit()\<close>
  first and \<^verbatim>\<open>handleSave\<close> after it. For the cell of Quantity with the text \<open>5\<close>, the
  calls are \<^verbatim>\<open>setEditing(false)\<close>, \<^verbatim>\<open>setFieldsValue\<close>, \<^verbatim>\<open>handleSave\<close>, in this order.
\<close>

theorem save_toggles_before_handleSave:
  "\<not> isl (save (validate_required ''Quantity'' Quantity) quantity_cell (edit_world (Some (JStr ''5''))))
   \<and> calls (projr (save (validate_required ''Quantity'' Quantity) quantity_cell
                (edit_world (Some (JStr ''5'')))))
       = [SetEditing False, SetFieldsValue Quantity (Some (JNum 1)), HandleSave quantity_text_five]
   \<and> \<not> called_before (HandleSave quantity_text_five) (SetEditing False)
        (calls (projr (save (validate_required ''Quantity'' Quantity) quantity_cell
                (edit_world (Some (JStr ''5''))))))"
  by (simp add: save_def save_try_def toggleEdit_def cell_handleSave_def Let_def
        validate_required_def is_empty_value_def edit_world_def quantity_cell_def
        quantity_text_five_def spread_values_def initial_state_def)

text \<open>
  C6, amended: for a cell in EDIT, when a commit passes validation, \<^verbatim>\<open>save\<close> first
  makes the transition to VIEW (\<^verbatim>\<open>toggleEdit\<close>: \<^verbatim>\<open>setEditing(false)\<close>, then the field of the
  form is set back to the value in the record), and then invokes the Row Store update
  with the validated values merged into a copy of the record: the copy has the key of
  the record and, for a single validated field, that value in the field and the
  record's values elsewhere. Nothing is logged and no error leaves \<^verbatim>\<open>save\<close>.
\<close>

theorem save_validated:
  assumes "validateFields (form w) = Inr values" and "editing w"
  shows "\<exists>w'. save validateFields props w = Inr w'
           \<and> \<not> editing w'
           \<and> app w' = handleSave (spread_values (row_record props) values) (app w)
           \<and> calls w' = calls w @
                [SetEditing False,
                 SetFieldsValue (dataIndex props) (get_field (dataIndex props) (row_record props)),
                 HandleSave (spread_values (row_record props) values)]
           \<and> console w' = console w
           \<and> key (spread_values (row_record props) values) = key (row_record props)
           \<and> (\<forall>f v g. values = [(f, v)] \<longrightarrow>
                 get_field g (spread_values (row_record props) values) =
                   (if g = f then Some v else get_field g (row_record props)))"
proof -
  have "\<forall>f v g. values = [(f, v)] \<longrightarrow>
                 get_field g (spread_values (row_record props) values) =
                   (if g = f then Some v else get_field g (row_record props))"
    by (simp add: spread_values_def get_set_field)
  then show ?thesis using assms
    by (simp add: save_def save_try_def toggleEdit_def cell_handleSave_def Let_def key_spread_values)
qed

text \<open>The cell of Quantity in EDIT with the text \<open>5\<close>: the row of key \<open>"0"\<close> gets the
  text as its quantity.\<close>

theorem save_validated_witness:
  "validate_required ''Quantity'' Quantity (form (edit_world (Some (JStr ''5'')))) =
       Inr [(Quantity, JStr ''5'')]
   \<and> editing (edit_world (Some (JStr ''5'')))
   \<and> (\<exists>w'. save (validate_required ''Quantity'' Quantity) quantity_cell
                (edit_world (Some (JStr ''5''))) = Inr w'
           \<and> \<not> editing w'
           \<and> app w' = handleSave quantity_text_five initial_state
           \<and> calls w' = [SetEditing False, SetFieldsValue Quantity (Some (JNum 1)),
                          HandleSave quantity_text_five])"
proof -
  have h: "validate_required ''Quantity'' Quantity (form (edit_world (Some (JStr ''5'')))) =
       Inr [(Quantity, JStr ''5'')]"
    by (simp add: validate_required_def is_empty_value_def edit_world_def)
  have e: "editing (edit_world (Some (JStr ''5'')))" by (simp add: edit_world_def)
  have m: "spread_values (row_record quantity_cell) [(Quantity, JStr ''5'')] = quantity_text_five"
    by (simp add: spread_values_def quantity_cell_def quantity_text_five_def initial_state_def)
  have g: "quantity (row_record quantity_cell) = Some (JNum 1)"
    by (simp add: quantity_cell_def initial_state_def)
  have d: "dataIndex quantity_cell = Quantity" by (simp add: quantity_cell_def)
  have a: "app (edit_world (Some (JStr ''5''))) = initial_state"
    and c: "calls (edit_world (Some (JStr ''5''))) = []"
    by (simp_all add: edit_world_def)
  from save_validated [where validateFields = "validate_required ''Quantity'' Quantity"
         and w = "edit_world (Some (JStr ''5''))" and props = quantity_cell, OF h e]
  obtain w' where
    "save (validate_required ''Quantity'' Quantity) quantity_cell (edit_world (Some (JStr ''5''))) = Inr w'"
    "\<not> editing w'"
    "app w' = handleSave (spread_values (row_record quantity_cell) [(Quantity, JStr ''5'')])
               (app (edit_world (Some (JStr ''5''))))"
    "calls w' = calls (edit_world (Some (JStr ''5''))) @
                [SetEditing False,
                 SetFieldsValue (dataIndex quantity_cell)
                   (get_field (dataIndex quantity_cell) (row_record quantity_cell)),
                 HandleSave (spread_values (row_record quantity_cell) [(Quantity, JStr ''5'')])]"
    by blast
  with h e show ?thesis by (simp add: m g d a c)
qed

section \<open>The claims about arrays and hidden state\<close>

text \<open>
  C9, as the claim states it: the new sequence that add gives is a function of the
  old sequence and the explicit arguments alone. It fails: \<^verbatim>\<open>handleAdd\<close> has no
  argument and reads the counter. After an add and the removal of the row added, the
  sequence is the initial one again, and add now appends another row than it does in
  the initial state.
\<close>

theorem handleAdd_depends_on_counter:
  "rows_of (handleDelete_ref (KNum 2) (handleAdd_ref initial_store)) = rows_of initial_store
   \<and> rows_of (handleAdd_ref (handleDelete_ref (KNum 2) (handleAdd_ref initial_store)))
       \<noteq> rows_of (handleAdd_ref initial_store)"
  by (simp add: handleDelete_ref_def handleAdd_ref_def alloc_def rows_of_def initial_store_def
        initial_state_def)

text \<open>
  C9, amended: remove and update are functions of the old sequence and their argument:
  from two states with the same sequence they give the same new sequence, whatever
  the counter and the other arrays. add is a function of the old sequence and the
  counter. Each of the three leaves every array that existed before as it was, so the
  old sequence is still what its reference names, and gives the new sequence as an
  array other than the old one.
\<close>

theorem handlers_copy_on_write:
  assumes "wf_store s" and "rows_of s = rows_of t"
  shows "rows_of (handleDelete_ref k s) = rows_of (handleDelete_ref k t)
       \<and> rows_of (handleSave_ref r s) = rows_of (handleSave_ref r t)
       \<and> (count_ref s = count_ref t \<longrightarrow> rows_of (handleAdd_ref s) = rows_of (handleAdd_ref t))
       \<and> (\<forall>a < length (arrays s).
             arrays (handleDelete_ref k s) ! a = arrays s ! a
           \<and> arrays (handleSave_ref r s) ! a = arrays s ! a
           \<and> arrays (handleAdd_ref s) ! a = arrays s ! a)
       \<and> arrays (handleDelete_ref k s) ! dataSource_ref s = rows_of s
       \<and> arrays (handleSave_ref r s) ! dataSource_ref s = rows_of s
       \<and> arrays (handleAdd_ref s) ! dataSource_ref s = rows_of s
       \<and> dataSource_ref (handleDelete_ref k s) \<noteq> dataSource_ref s
       \<and> dataSource_ref (handleSave_ref r s) \<noteq> dataSource_ref s
       \<and> dataSource_ref (handleAdd_ref s) \<noteq> dataSource_ref s"
proof -
  from assms(1) have lt: "dataSource_ref s < length (arrays s)"
    by (simp add: wf_store_def)
  have d: "rows_of (handleDelete_ref k s) = rows_of (handleDelete_ref k t)"
    using assms(2) by (simp add: handleDelete_ref_rows handleDelete_def abstract_state_def)
  have u: "rows_of (handleSave_ref r s) = rows_of (handleSave_ref r t)"
    using assms(2) by (simp add: handleSave_ref_rows handleSave_def abstract_state_def Let_def)
  have a: "rows_of (handleAdd_ref s) = rows_of (handleAdd_ref t)" if "count_ref s = count_ref t"
    using assms(2) that by (simp add: handleAdd_ref_rows abstract_state_def)
  have old: "arrays (handleDelete_ref k s) ! dataSource_ref s = rows_of s"
    "arrays (handleSave_ref r s) ! dataSource_ref s = rows_of s"
    "arrays (handleAdd_ref s) ! dataSource_ref s = rows_of s"
    using lt by (simp_all add: handleDelete_ref_old handleSave_ref_old handleAdd_ref_old rows_of_def)
  have new: "dataSource_ref (handleDelete_ref k s) \<noteq> dataSource_ref s"
    "dataSource_ref (handleSave_ref r s) \<noteq> dataSource_ref s"
    "dataSource_ref (handleAdd_ref s) \<noteq> dataSource_ref s"
    using lt by (simp_all add: handlers_ref_fresh)
  from d u a old new show ?thesis
    by (simp add: handleDelete_ref_old handleSave_ref_old handleAdd_ref_old)
qed

text \<open>The initial state and the state after an add and the removal of the row added: the
  same sequence, another counter, another array. remove and update give the same
  sequences from both, and the first array still holds the initial rows. From a state
  with the same sequence and the same counter, add gives the same sequence.\<close>

theorem handlers_copy_on_write_witness:
  "wf_store initial_store
   \<and> rows_of initial_store = rows_of (handleDelete_ref (KNum 2) (handleAdd_ref initial_store))
   \<and> count_ref initial_store \<noteq> count_ref (handleDelete_ref (KNum 2) (handleAdd_ref initial_store))
   \<and> rows_of (handleDelete_ref (KStr ''0'') initial_store)
       = rows_of (handleDelete_ref (KStr ''0'') (handleDelete_ref (KNum 2) (handleAdd_ref initial_store)))
   \<and> rows_of (handleSave_ref quantity_five initial_store)
       = rows_of (handleSave_ref quantity_five (handleDelete_ref (KNum 2) (handleAdd_ref initial_store)))
   \<and> arrays (handleSave_ref quantity_five initial_store) ! 0 = dataSource initial_state
   \<and> arrays (handleDelete_ref (KStr ''0'') initial_store) ! 0 = dataSource initial_state
   \<and> arrays (handleAdd_ref initial_store) ! 0 = dataSource initial_state
   \<and> dataSource_ref (handleSave_ref quantity_five initial_store) \<noteq> 0
   \<and> rows_of initial_store = rows_of (handleDelete_ref (KStr ''9'') initial_store)
   \<and> count_ref initial_store = count_ref (handleDelete_ref (KStr ''9'') initial_store)
   \<and> rows_of (handleAdd_ref initial_store)
       = rows_of (handleAdd_ref (handleDelete_ref (KStr ''9'') initial_store))"
proof -
  let ?t = "handleDelete_ref (KNum 2) (handleAdd_ref initial_store)"
  let ?u = "handleDelete_ref (KStr ''9'') initial_store"
  have w: "wf_store initial_store"
    by (simp add: wf_store_def initial_store_def)
  have h: "rows_of initial_store = rows_of ?t"
    by (simp add: handleDelete_ref_def handleAdd_ref_def alloc_def rows_of_def initial_store_def
          initial_state_def)
  have c: "count_ref initial_store \<noteq> count_ref ?t"
    by (simp add: handleDelete_ref_def handleAdd_ref_def alloc_def initial_store_def)
  have h': "rows_of initial_store = rows_of ?u"
    by (simp add: handleDelete_ref_def alloc_def rows_of_def initial_store_def initial_state_def)
  have c': "count_ref initial_store = count_ref ?u"
    by (simp add: handleDelete_ref_def alloc_def initial_store_def)
  have l: "dataSource_ref initial_store = 0" "rows_of initial_store = dataSource initial_state"
    by (simp_all add: initial_store_def rows_of_def)
  from handlers_copy_on_write [OF w h, of "KStr ''0''" quantity_five] l
  have 1: "rows_of (handleDelete_ref (KStr ''0'') initial_store) = rows_of (handleDelete_ref (KStr ''0'') ?t)"
    and 2: "rows_of (handleSave_ref quantity_five initial_store) = rows_of (handleSave_ref quantity_five ?t)"
    and 3: "arrays (handleSave_ref quantity_five initial_store) ! 0 = dataSource initial_state"
    and 4: "arrays (handleDelete_ref (KStr ''0'') initial_store) ! 0 = dataSource initial_state"
    and 5: "arrays (handleAdd_ref initial_store) ! 0 = dataSource initial_state"
    and 6: "dataSource_ref (handleSave_ref quantity_five initial_store) \<noteq> 0"
    by simp_all
  from handlers_copy_on_write [OF w h', of "KStr ''0''" quantity_five] c'
  have 7: "rows_of (handleAdd_ref initial_store) = rows_of (handleAdd_ref ?u)"
    by simp
  from w h c h' c' 1 2 3 4 5 6 7 show ?thesis by simp
qed

end
